theory Spec2Isabelle
  imports Complex_Main "HOL-Library.Sublist" "HOL-Library.Multiset"
begin

section \<open>The post-processing pipeline of \<open>POST /recognize\<close> (server.js)\<close>

text \<open>
  The model covers server.js from the decoding of the upstream text (line 142) to the
  list that is sent back (line 175), the empty-text guard before it (line 138), and the
  schema declared at lines 52-60.

  Three things the code uses live outside the repository and are modelled from their
  published behaviour:
  \<^item> \<open>JSON.parse\<close> is a parameter \<open>parse\<close> of the model: it returns \<open>None\<close> where
    the built-in throws and the decoded value otherwise;
  \<^item> zod's \<open>z.object\<close>, \<open>z.array\<close>, \<open>z.string\<close> and \<open>z.number\<close>: an object schema
    requires a plain object, reads the declared keys and strips the others; a string
    schema accepts strings only; a number schema accepts every number but NaN (zod 3;
    zod 4 refuses the infinities as well, which a decoded \<open>1e999\<close> is: fewer values
    pass, and what is proved of all that pass stays true);
  \<^item> \<open>Array.prototype.sort\<close> is stable, so for a consistent comparator its result is the
    one a stable insertion sort computes.

  A JavaScript string is a sequence of code units. The model takes the code units
  U+0000 to U+00FF, one \<open>char\<close> each, and follows \<open>trim\<close>, \<open>toLowerCase\<close> and the
  regular-expression class \<open>\s\<close> on that range.
\<close>

subsection \<open>JavaScript numbers\<close>

text \<open>
  A number is a finite value, an infinity or NaN. Finite values are rationals, the two
  zeros identified: they are both falsy, and nothing below divides. The pipeline only
  compares numbers and takes the sign of a difference, which is exact for doubles.
\<close>

datatype jsnum = Fin rat | PInf | NInf | NaN

fun js_lt :: "jsnum \<Rightarrow> jsnum \<Rightarrow> bool" where
  "js_lt NaN _ = False"
| "js_lt _ NaN = False"
| "js_lt PInf _ = False"
| "js_lt _ PInf = True"
| "js_lt _ NInf = False"
| "js_lt NInf _ = True"
| "js_lt (Fin a) (Fin b) = (a < b)"

text \<open>\<open>Math.min\<close> and \<open>Math.max\<close> of two arguments: NaN if either is NaN.\<close>

definition Math_min :: "jsnum \<Rightarrow> jsnum \<Rightarrow> jsnum" where
  "Math_min a b = (if a = NaN \<or> b = NaN then NaN else if js_lt b a then b else a)"

definition Math_max :: "jsnum \<Rightarrow> jsnum \<Rightarrow> jsnum" where
  "Math_max a b = (if a = NaN \<or> b = NaN then NaN else if js_lt a b then b else a)"

text \<open>Truthiness of a number: everything but zero and NaN.\<close>

fun truthy_num :: "jsnum \<Rightarrow> bool" where
  "truthy_num (Fin r) = (r \<noteq> 0)"
| "truthy_num PInf = True"
| "truthy_num NInf = True"
| "truthy_num NaN = False"

text \<open>\<open>a || b\<close> on numbers and on strings (the empty string is the only falsy string).\<close>

definition num_or :: "jsnum \<Rightarrow> jsnum \<Rightarrow> jsnum" where
  "num_or a b = (if truthy_num a then a else b)"

definition str_or :: "string \<Rightarrow> string \<Rightarrow> string" where
  "str_or a b = (if a \<noteq> [] then a else b)"

text \<open>Subtraction, as the comparator of the sort uses it.\<close>

fun js_sub :: "jsnum \<Rightarrow> jsnum \<Rightarrow> jsnum" where
  "js_sub NaN _ = NaN"
| "js_sub _ NaN = NaN"
| "js_sub (Fin a) (Fin b) = Fin (a - b)"
| "js_sub (Fin a) PInf = NInf"
| "js_sub (Fin a) NInf = PInf"
| "js_sub PInf PInf = NaN"
| "js_sub PInf _ = PInf"
| "js_sub NInf NInf = NaN"
| "js_sub NInf _ = NInf"

subsection \<open>Strings\<close>

text \<open>White space and line terminators of ECMAScript below U+0100.\<close>

definition is_space :: "char \<Rightarrow> bool" where
  "is_space c \<longleftrightarrow> (of_char c :: nat) \<in> {9, 10, 11, 12, 13, 32, 160}"

definition trim :: "string \<Rightarrow> string" where
  "trim s = rev (dropWhile is_space (rev (dropWhile is_space s)))"

text \<open>
  Lower case below U+0100: A-Z, and the Latin-1 capitals U+00C0 to U+00DE without the
  multiplication sign U+00D7, move up by 32.
\<close>

definition lower_char :: "char \<Rightarrow> char" where
  "lower_char c =
     (let n = (of_char c :: nat)
      in if (65 \<le> n \<and> n \<le> 90) \<or> (192 \<le> n \<and> n \<le> 222 \<and> n \<noteq> 215)
         then char_of (n + 32) else c)"

definition toLowerCase :: "string \<Rightarrow> string" where
  "toLowerCase s = map lower_char s"

subsection \<open>Regular expressions\<close>

text \<open>
  The fragment the three patterns use: a literal, \<open>\s*\<close>, sequence and alternative.
  \<open>rx_match r s\<close> lists what is left of \<open>s\<close> after each way \<open>r\<close> matches a prefix
  of it; \<open>rx_test\<close> is \<open>RegExp.prototype.test\<close> for a pattern without anchors: a match
  may start anywhere.
\<close>

datatype rx = Lit string | Star_ws | Seq rx rx | Alt rx rx

fun ws_tails :: "string \<Rightarrow> string list" where
  "ws_tails [] = [[]]"
| "ws_tails (c # cs) = (if is_space c then ws_tails cs @ [c # cs] else [c # cs])"

fun rx_match :: "rx \<Rightarrow> string \<Rightarrow> string list" where
  "rx_match (Lit p) s = (if take (length p) s = p then [drop (length p) s] else [])"
| "rx_match Star_ws s = ws_tails s"
| "rx_match (Seq a b) s = concat (map (rx_match b) (rx_match a s))"
| "rx_match (Alt a b) s = rx_match a s @ rx_match b s"

fun rx_test :: "rx \<Rightarrow> string \<Rightarrow> bool" where
  "rx_test r [] = (rx_match r [] \<noteq> [])"
| "rx_test r (c # cs) = (rx_match r (c # cs) \<noteq> [] \<or> rx_test r cs)"

text \<open>\<open>/(spaghetti|penne|fusilli|farfalle|macaroni|rigatoni|tagliatelle|linguine|fettuccine|pasta|noodle)/\<close>\<close>

definition pasta_rx :: rx where
  "pasta_rx =
     Alt (Lit ''spaghetti'') (Alt (Lit ''penne'') (Alt (Lit ''fusilli'')
    (Alt (Lit ''farfalle'') (Alt (Lit ''macaroni'') (Alt (Lit ''rigatoni'')
    (Alt (Lit ''tagliatelle'') (Alt (Lit ''linguine'') (Alt (Lit ''fettuccine'')
    (Alt (Lit ''pasta'') (Lit ''noodle''))))))))))"

text \<open>\<open>/(fries|french\s*fries)/\<close>\<close>

definition fries_rx :: rx where
  "fries_rx = Alt (Lit ''fries'') (Seq (Lit ''french'') (Seq Star_ws (Lit ''fries'')))"

text \<open>\<open>/(orange|mandarin|tangerine)/\<close>\<close>

definition orange_rx :: rx where
  "orange_rx = Alt (Lit ''orange'') (Alt (Lit ''mandarin'') (Lit ''tangerine''))"

subsection \<open>Decoded JSON and the schema\<close>

text \<open>An object is the list of its properties; \<open>map_of\<close> reads a property.\<close>

datatype json =
    JNull
  | JBool bool
  | JNum jsnum
  | JStr string
  | JArr "json list"
  | JObj "(string \<times> json) list"

record item =
  label :: string
  canonical :: string
  confidence :: jsnum

definition z_string :: "json option \<Rightarrow> string option" where
  "z_string v = (case v of Some (JStr s) \<Rightarrow> Some s | _ \<Rightarrow> None)"

definition z_number :: "json option \<Rightarrow> jsnum option" where
  "z_number v = (case v of Some (JNum n) \<Rightarrow> (if n = NaN then None else Some n) | _ \<Rightarrow> None)"

text \<open>The element schema of lines 54-58. A missing key reads as \<open>undefined\<close>, which no
  field schema accepts; keys that are not declared are dropped.\<close>

definition item_schema :: "json \<Rightarrow> item option" where
  "item_schema v =
     (case v of
        JObj kvs \<Rightarrow>
          (case z_string (map_of kvs ''label'') of
             None \<Rightarrow> None
           | Some l \<Rightarrow>
               (case z_number (map_of kvs ''confidence'') of
                  None \<Rightarrow> None
                | Some c \<Rightarrow>
                    (case z_string (map_of kvs ''canonical'') of
                       None \<Rightarrow> None
                     | Some k \<Rightarrow> Some \<lparr>label = l, canonical = k, confidence = c\<rparr>)))
      | _ \<Rightarrow> None)"

fun z_array :: "(json \<Rightarrow> 'a option) \<Rightarrow> json list \<Rightarrow> 'a list option" where
  "z_array f [] = Some []"
| "z_array f (x # xs) =
     (case f x of
        None \<Rightarrow> None
      | Some y \<Rightarrow> (case z_array f xs of None \<Rightarrow> None | Some ys \<Rightarrow> Some (y # ys)))"

text \<open>\<open>ItemsSchema.parse\<close> (lines 52-60): \<open>None\<close> where it throws, the \<open>items\<close> of the
  parsed value otherwise.\<close>

definition ItemsSchema_parse :: "json \<Rightarrow> item list option" where
  "ItemsSchema_parse v =
     (case v of
        JObj kvs \<Rightarrow>
          (case map_of kvs ''items'' of
             Some (JArr xs) \<Rightarrow> z_array item_schema xs
           | _ \<Rightarrow> None)
      | _ \<Rightarrow> None)"

subsection \<open>Sanitize, filter, canonicalize, rank (lines 156-173)\<close>

text \<open>Line 156; \<open>banned.has\<close> is membership.\<close>

definition banned :: "string list" where
  "banned = [''snack'', ''food'', ''meal'', ''dish'', ''appetizer'', ''plate'', ''junk food'']"

text \<open>Line 161: \<open>Math.max(0, Math.min(1, Number(it.confidence) || 0))\<close>; \<open>Number\<close> of a
  number is that number.\<close>

definition clamp_confidence :: "jsnum \<Rightarrow> jsnum" where
  "clamp_confidence c = Math_max (Fin 0) (Math_min (Fin 1) (num_or c (Fin 0)))"

text \<open>Lines 158-162; \<open>String\<close> of a string is that string.\<close>

definition sanitize :: "item \<Rightarrow> item" where
  "sanitize it =
     \<lparr>label = toLowerCase (trim (str_or (label it) '''')),
      canonical = toLowerCase (trim (str_or (canonical it) '''')),
      confidence = clamp_confidence (confidence it)\<rparr>"

text \<open>Line 163.\<close>

definition keep :: "item \<Rightarrow> bool" where
  "keep it \<longleftrightarrow> length (label it) > 0 \<and> \<not> label it \<in> set banned"

text \<open>Lines 164-171.\<close>

definition canonicalize :: "item \<Rightarrow> item" where
  "canonicalize it =
     (let l = label it;
          canon = str_or (canonical it) l;
          canon = (if rx_test pasta_rx l then ''pasta'' else canon);
          canon = (if rx_test fries_rx l then ''french fries'' else canon);
          canon = (if rx_test orange_rx l then ''orange'' else canon)
      in it\<lparr>canonical := canon\<rparr>)"

text \<open>
  Line 172. The comparator is \<open>(a, b) => b.confidence - a.confidence\<close>; the sort reads
  a NaN result as 0. An element goes behind those it compares greater than (result
  above 0) and in front of the others, so equal elements keep their order.
\<close>

definition by_confidence :: "item \<Rightarrow> item \<Rightarrow> jsnum" where
  "by_confidence a b = js_sub (confidence b) (confidence a)"

fun insort_by :: "('a \<Rightarrow> 'a \<Rightarrow> jsnum) \<Rightarrow> 'a \<Rightarrow> 'a list \<Rightarrow> 'a list" where
  "insort_by cmp x [] = [x]"
| "insort_by cmp x (y # ys) =
     (if js_lt (Fin 0) (cmp x y) then y # insort_by cmp x ys else x # y # ys)"

definition js_sort :: "('a \<Rightarrow> 'a \<Rightarrow> jsnum) \<Rightarrow> 'a list \<Rightarrow> 'a list" where
  "js_sort cmp xs = foldr (insort_by cmp) xs []"

text \<open>Lines 157-173. \<open>parsed.items || []\<close> is \<open>parsed.items\<close>, an array being truthy;
  \<open>slice(0, 5)\<close> keeps the first 5.\<close>

definition itemsRaw :: "item list \<Rightarrow> item list" where
  "itemsRaw items =
     take 5 (js_sort by_confidence (map canonicalize (filter keep (map sanitize items))))"

subsection \<open>The handler from the upstream text on (lines 137-175)\<close>

datatype error = NoOutputText | ParseError string | SchemaError

text \<open>Lines 149-175, on the decoded value.\<close>

definition normalize_value :: "json \<Rightarrow> error + item list" where
  "normalize_value data =
     (case ItemsSchema_parse data of
        None \<Rightarrow> Inl SchemaError
      | Some parsed \<Rightarrow> Inr (itemsRaw parsed))"

text \<open>Lines 142-175; \<open>textOut.slice(0, 400)\<close> is the first 400 code units.\<close>

definition normalize_text :: "(string \<Rightarrow> json option) \<Rightarrow> string \<Rightarrow> error + item list" where
  "normalize_text parse rawText =
     (case parse rawText of
        None \<Rightarrow> Inl (ParseError (take 400 rawText))
      | Some data \<Rightarrow> normalize_value data)"

text \<open>Lines 137-175: an empty upstream text is answered before anything is decoded.\<close>

definition respond :: "(string \<Rightarrow> json option) \<Rightarrow> string \<Rightarrow> error + item list" where
  "respond parse textOut =
     (if textOut = [] then Inl NoOutputText else normalize_text parse textOut)"

section \<open>Notions the properties are stated with\<close>

text \<open>The closed interval from 0 to 1, as a predicate on JavaScript numbers.\<close>

fun unit_interval :: "jsnum \<Rightarrow> bool" where
  "unit_interval (Fin r) = (0 \<le> r \<and> r \<le> 1)"
| "unit_interval _ = False"

text \<open>The words of the three patterns.\<close>

definition pasta_words :: "string list" where
  "pasta_words = [''spaghetti'', ''penne'', ''fusilli'', ''farfalle'', ''macaroni'', ''rigatoni'',
     ''tagliatelle'', ''linguine'', ''fettuccine'', ''pasta'', ''noodle'']"

definition orange_words :: "string list" where
  "orange_words = [''orange'', ''mandarin'', ''tangerine'']"

text \<open>The value of a finite number, and the order of two numbers, neither NaN.\<close>

fun fin_val :: "jsnum \<Rightarrow> rat" where
  "fin_val (Fin r) = r"
| "fin_val _ = 0"

definition js_ge :: "jsnum \<Rightarrow> jsnum \<Rightarrow> bool" where
  "js_ge a b \<longleftrightarrow> js_lt b a \<or> (a = b \<and> a \<noteq> NaN)"

text \<open>The stages of \<open>itemsRaw\<close> before the sort and before the truncation.\<close>

definition survivors :: "item list \<Rightarrow> item list" where
  "survivors items = map canonicalize (filter keep (map sanitize items))"

definition ranked :: "item list \<Rightarrow> item list" where
  "ranked items = js_sort by_confidence (survivors items)"

text \<open>
  The shape \<open>{ items: Array<{ label: string, confidence: number, canonical: string }> }\<close>,
  read on a decoded value: the named properties are present with these types, a number
  being any number but NaN. Other properties are not looked at.
\<close>

fun is_string :: "json option \<Rightarrow> bool" where
  "is_string (Some (JStr s)) = True"
| "is_string _ = False"

fun is_number :: "json option \<Rightarrow> bool" where
  "is_number (Some (JNum n)) = (n \<noteq> NaN)"
| "is_number _ = False"

definition item_shape :: "json \<Rightarrow> bool" where
  "item_shape v =
     (case v of
        JObj kvs \<Rightarrow> is_string (map_of kvs ''label'') \<and> is_number (map_of kvs ''confidence'')
          \<and> is_string (map_of kvs ''canonical'')
      | _ \<Rightarrow> False)"

definition items_shape :: "json \<Rightarrow> bool" where
  "items_shape v =
     (case v of
        JObj kvs \<Rightarrow>
          (case map_of kvs ''items'' of Some (JArr xs) \<Rightarrow> list_all item_shape xs | _ \<Rightarrow> False)
      | _ \<Rightarrow> False)"

text \<open>
  The confidence step in the words of the specification: default to 0 if not a finite
  number, then clamp to the interval from 0 to 1.
\<close>

definition spec_confidence :: "jsnum \<Rightarrow> jsnum" where
  "spec_confidence c =
     (case (case c of Fin r \<Rightarrow> Fin r | _ \<Rightarrow> Fin 0) of
        Fin r \<Rightarrow> Fin (max 0 (min 1 r))
      | d \<Rightarrow> d)"



text \<open>
  The value of \<open>JSON.parse(JSON.stringify({items: L}))\<close> for a list \<open>L\<close> of output
  items: the keys in the order the items were built with, a number that is not finite
  written as \<open>null\<close>.
\<close>

definition json_of_number :: "jsnum \<Rightarrow> json" where
  "json_of_number n = (case n of Fin r \<Rightarrow> JNum (Fin r) | _ \<Rightarrow> JNull)"

definition json_of_item :: "item \<Rightarrow> json" where
  "json_of_item it =
     JObj [(''label'', JStr (label it)), (''canonical'', JStr (canonical it)),
           (''confidence'', json_of_number (confidence it))]"

definition rewrap :: "item list \<Rightarrow> json" where
  "rewrap L = JObj [(''items'', JArr (map json_of_item L))]"

section \<open>Example inputs\<close>

text \<open>Upstream texts and the values \<open>JSON.parse\<close> decodes them to, a decimal standing
  for the double next to it.\<close>

definition text_empty :: string where
  \<open>text_empty = ''{"items":[]}''\<close>

definition value_empty :: json where
  "value_empty = JObj [(''items'', JArr [])]"

definition text_snack :: string where
  \<open>text_snack = ''{"items":[{"label":"SNACK","confidence":0.9,"canonical":"snack"}]}''\<close>

definition value_snack :: json where
  "value_snack = JObj [(''items'', JArr
     [JObj [(''label'', JStr ''SNACK''), (''confidence'', JNum (Fin (9/10))),
            (''canonical'', JStr ''snack'')]])]"

definition text_foo :: string where
  \<open>text_foo = ''{"items":[{"foo":1}]}''\<close>

definition value_foo :: json where
  "value_foo = JObj [(''items'', JArr [JObj [(''foo'', JNum (Fin 1))]])]"

definition text_extra :: string where
  \<open>text_extra = ''{"items":[],"extra":1}''\<close>

definition value_extra :: json where
  "value_extra = JObj [(''items'', JArr []), (''extra'', JNum (Fin 1))]"

definition text_mixed :: string where
  \<open>text_mixed = ''{"items":[{"label":" Apple","confidence":0.4,"canonical":""},{"label":"SNACK","confidence":0.9,"canonical":"snack"},{"label":"Penne","confidence":1.5,"canonical":"penne"},{"label":"Rice","confidence":0,"canonical":"rice"}]}''\<close>

definition value_mixed :: json where
  "value_mixed = JObj [(''items'', JArr
     [JObj [(''label'', JStr '' Apple''), (''confidence'', JNum (Fin (2/5))),
            (''canonical'', JStr '''')],
      JObj [(''label'', JStr ''SNACK''), (''confidence'', JNum (Fin (9/10))),
            (''canonical'', JStr ''snack'')],
      JObj [(''label'', JStr ''Penne''), (''confidence'', JNum (Fin (3/2))),
            (''canonical'', JStr ''penne'')],
      JObj [(''label'', JStr ''Rice''), (''confidence'', JNum (Fin 0)),
            (''canonical'', JStr ''rice'')]])]"

definition text_malformed :: string where
  "text_malformed = ''{not json''"

definition text_out_mixed :: string where
  \<open>text_out_mixed = ''{"items":[{"label":"penne","canonical":"pasta","confidence":1},{"label":"apple","canonical":"apple","confidence":0.4},{"label":"rice","canonical":"rice","confidence":0}]}''\<close>

definition value_out_mixed :: json where
  "value_out_mixed = JObj [(''items'', JArr
     [JObj [(''label'', JStr ''penne''), (''canonical'', JStr ''pasta''),
            (''confidence'', JNum (Fin 1))],
      JObj [(''label'', JStr ''apple''), (''canonical'', JStr ''apple''),
            (''confidence'', JNum (Fin (2/5)))],
      JObj [(''label'', JStr ''rice''), (''canonical'', JStr ''rice''),
            (''confidence'', JNum (Fin 0))]])]"

text \<open>\<open>JSON.parse\<close> on the texts above; every other text is left undecoded here.\<close>

definition example_parse :: "string \<Rightarrow> json option" where
  "example_parse s =
     (if s = text_empty then Some value_empty
      else if s = text_snack then Some value_snack
      else if s = text_foo then Some value_foo
      else if s = text_extra then Some value_extra
      else if s = text_mixed then Some value_mixed
      else if s = text_out_mixed then Some value_out_mixed
      else None)"

definition out_mixed :: "item list" where
  "out_mixed =
     [\<lparr>label = ''penne'', canonical = ''pasta'', confidence = Fin 1\<rparr>,
      \<lparr>label = ''apple'', canonical = ''apple'', confidence = Fin (2/5)\<rparr>,
      \<lparr>label = ''rice'', canonical = ''rice'', confidence = Fin 0\<rparr>]"

text \<open>A list of sanitized items with ties, and its ranking.\<close>

definition items_ties :: "item list" where
  "items_ties =
     [\<lparr>label = ''a'', canonical = ''a'', confidence = Fin (2/5)\<rparr>,
      \<lparr>label = ''b'', canonical = ''b'', confidence = Fin 1\<rparr>,
      \<lparr>label = ''c'', canonical = ''c'', confidence = Fin (2/5)\<rparr>,
      \<lparr>label = ''d'', canonical = ''d'', confidence = Fin 0\<rparr>,
      \<lparr>label = ''e'', canonical = ''e'', confidence = Fin 1\<rparr>,
      \<lparr>label = ''f'', canonical = ''f'', confidence = Fin (2/5)\<rparr>,
      \<lparr>label = ''g'', canonical = ''g'', confidence = Fin (9/10)\<rparr>]"

definition ranked_ties :: "item list" where
  "ranked_ties =
     [\<lparr>label = ''b'', canonical = ''b'', confidence = Fin 1\<rparr>,
      \<lparr>label = ''e'', canonical = ''e'', confidence = Fin 1\<rparr>,
      \<lparr>label = ''g'', canonical = ''g'', confidence = Fin (9/10)\<rparr>,
      \<lparr>label = ''a'', canonical = ''a'', confidence = Fin (2/5)\<rparr>,
      \<lparr>label = ''c'', canonical = ''c'', confidence = Fin (2/5)\<rparr>,
      \<lparr>label = ''f'', canonical = ''f'', confidence = Fin (2/5)\<rparr>,
      \<lparr>label = ''d'', canonical = ''d'', confidence = Fin 0\<rparr>]"

text \<open>The items the schema reads from \<open>value_mixed\<close>.\<close>

definition items_mixed :: "item list" where
  "items_mixed =
     [\<lparr>label = '' Apple'', canonical = [], confidence = Fin (2/5)\<rparr>,
      \<lparr>label = ''SNACK'', canonical = ''snack'', confidence = Fin (9/10)\<rparr>,
      \<lparr>label = ''Penne'', canonical = ''penne'', confidence = Fin (3/2)\<rparr>,
      \<lparr>label = ''Rice'', canonical = ''rice'', confidence = Fin 0\<rparr>]"

text \<open>Parsed items, two of them with confidence 0.\<close>

definition items_zero :: "item list" where
  "items_zero =
     [\<lparr>label = ''Rice'', canonical = ''rice'', confidence = Fin 0\<rparr>,
      \<lparr>label = ''Tea'', canonical = ''tea'', confidence = Fin (- 1)\<rparr>,
      \<lparr>label = ''Penne'', canonical = ''penne'', confidence = Fin (3/2)\<rparr>]"

section \<open>Auxiliary facts\<close>

subsection \<open>Numbers\<close>

lemma clamp_confidence_cases:
  "clamp_confidence (Fin r) = Fin (max 0 (min 1 r))"
  "clamp_confidence PInf = Fin 1"
  "clamp_confidence NInf = Fin 0"
  "clamp_confidence NaN = Fin 0"
  by (auto simp: clamp_confidence_def Math_max_def Math_min_def num_or_def)

lemma unit_interval_clamp: "unit_interval (clamp_confidence c)"
  by (cases c) (auto simp: clamp_confidence_cases)

lemma clamp_confidence_fixed: "unit_interval c \<Longrightarrow> clamp_confidence c = c"
  by (cases c) (auto simp: clamp_confidence_cases)

subsection \<open>Strings\<close>

lemma of_char_lower_char:
  "(of_char (lower_char c) :: nat) =
     (let n = of_char c in
      if (65 \<le> n \<and> n \<le> 90) \<or> (192 \<le> n \<and> n \<le> 222 \<and> n \<noteq> 215) then n + 32 else n)"
  by (auto simp: lower_char_def Let_def)

lemma lower_char_idem: "lower_char (lower_char c) = lower_char c"
proof -
  have "(of_char (lower_char (lower_char c)) :: nat) = of_char (lower_char c)"
    unfolding of_char_lower_char [of "lower_char c"]
    by (auto simp: of_char_lower_char Let_def)
  then show ?thesis by simp
qed

lemma is_space_lower_char: "is_space (lower_char c) = is_space c"
  unfolding is_space_def of_char_lower_char by (auto simp: Let_def)

lemma toLowerCase_idem: "toLowerCase (toLowerCase s) = toLowerCase s"
  by (simp add: toLowerCase_def lower_char_idem)

lemma dropWhile_fixed: "xs = [] \<or> \<not> P (hd xs) \<Longrightarrow> dropWhile P xs = xs"
  by (cases xs) auto

lemma hd_dropWhile_fixed: "dropWhile P xs = [] \<or> \<not> P (hd (dropWhile P xs))"
  by (cases "dropWhile P xs = []") (simp_all add: hd_dropWhile)

lemma trim_idem: "trim (trim s) = trim s"
proof -
  define t where "t = dropWhile is_space s"
  define u where "u = dropWhile is_space (rev t)"
  have t: "t = [] \<or> \<not> is_space (hd t)"
    unfolding t_def by (rule hd_dropWhile_fixed)
  obtain v where v: "rev t = v @ u"
    unfolding u_def by (metis takeWhile_dropWhile_id)
  then have tt: "t = rev u @ rev v" by (metis rev_append rev_rev_ident)
  have "rev u = [] \<or> \<not> is_space (hd (rev u))"
    using t tt by (cases "rev u") auto
  then have "dropWhile is_space (rev u) = rev u" by (rule dropWhile_fixed)
  moreover have "dropWhile is_space u = u"
    unfolding u_def by simp
  ultimately show ?thesis
    by (simp add: trim_def t_def [symmetric] u_def [symmetric])
qed

lemma trim_toLowerCase: "trim (toLowerCase s) = toLowerCase (trim s)"
proof -
  have c: "is_space \<circ> lower_char = is_space"
    by (rule ext) (simp add: is_space_lower_char)
  have d: "dropWhile is_space (map lower_char xs) = map lower_char (dropWhile is_space xs)" for xs
    by (simp add: dropWhile_map c)
  show ?thesis
    by (simp add: trim_def toLowerCase_def d rev_map)
qed

lemma sanitized_string_fixed: "toLowerCase (trim (toLowerCase (trim s))) = toLowerCase (trim s)"
  by (simp add: trim_toLowerCase toLowerCase_idem trim_idem)

lemma str_or_empty: "str_or s [] = s"
  by (simp add: str_or_def)

subsection \<open>Regular expressions\<close>

lemma rx_match_Lit: "rx_match (Lit p) s \<noteq> [] \<longleftrightarrow> prefix p s"
proof -
  have "take (length p) s = p \<longleftrightarrow> prefix p s"
    by (metis append_eq_conv_conj prefix_def take_is_prefix)
  then show ?thesis by simp
qed

lemma rx_test_suffix: "rx_test r s \<longleftrightarrow> (\<exists>t. suffix t s \<and> rx_match r t \<noteq> [])"
  by (induction s) (auto simp: suffix_Cons)

lemma sublist_suffix_prefix: "sublist p s \<longleftrightarrow> (\<exists>t. suffix t s \<and> prefix p t)"
  by (auto simp: sublist_def suffix_def prefix_def)

lemma rx_test_Lit: "rx_test (Lit p) s \<longleftrightarrow> sublist p s"
  unfolding rx_test_suffix rx_match_Lit sublist_suffix_prefix ..

lemma rx_test_Alt: "rx_test (Alt a b) s \<longleftrightarrow> rx_test a s \<or> rx_test b s"
  by (auto simp: rx_test_suffix)

lemma ws_tails_suffix: "t \<in> set (ws_tails s) \<Longrightarrow> suffix t s"
  by (induction s) (auto simp: suffix_Cons split: if_splits)

lemma rx_match_suffix: "t \<in> set (rx_match r s) \<Longrightarrow> suffix t s"
proof (induction r arbitrary: s t)
  case (Lit p)
  then show ?case by (auto simp: suffix_drop split: if_splits)
next
  case Star_ws
  then show ?case by (simp add: ws_tails_suffix)
next
  case (Seq a b)
  then show ?case by (fastforce intro: suffix_order.trans)
next
  case (Alt a b)
  then show ?case by auto
qed

lemma rx_test_Seq_Lit:
  assumes "rx_test (Seq a (Seq Star_ws (Lit p))) s"
  shows "sublist p s"
proof -
  from assms obtain t where t: "suffix t s" and m: "rx_match (Seq a (Seq Star_ws (Lit p))) t \<noteq> []"
    unfolding rx_test_suffix by blast
  from m obtain t1 t2 where t1: "t1 \<in> set (rx_match a t)" and t2: "t2 \<in> set (ws_tails t1)"
    and p: "rx_match (Lit p) t2 \<noteq> []"
    by (auto split: if_splits)
  have "suffix t2 s"
    using t rx_match_suffix [OF t1] ws_tails_suffix [OF t2] by (blast intro: suffix_order.trans)
  moreover have "prefix p t2" using p by (simp only: rx_match_Lit)
  ultimately show ?thesis unfolding sublist_suffix_prefix by blast
qed

lemma rx_test_pasta: "rx_test pasta_rx l \<longleftrightarrow> (\<exists>w \<in> set pasta_words. sublist w l)"
  by (simp add: pasta_rx_def pasta_words_def rx_test_Alt rx_test_Lit)

lemma rx_test_orange: "rx_test orange_rx l \<longleftrightarrow> (\<exists>w \<in> set orange_words. sublist w l)"
  by (simp add: orange_rx_def orange_words_def rx_test_Alt rx_test_Lit)

lemma rx_test_fries: "rx_test fries_rx l \<longleftrightarrow> sublist ''fries'' l"
  unfolding fries_rx_def rx_test_Alt rx_test_Lit
  using rx_test_Seq_Lit [of "Lit ''french''" "''fries''" l] by blast

text \<open>From here on a test is read through the facts above, not unfolded.\<close>

declare rx_test.simps [simp del]

subsection \<open>The sort\<close>

lemma unit_interval_Fin: "unit_interval c \<Longrightarrow> c = Fin (fin_val c)"
  by (cases c) auto

lemma insort_by_confidence:
  assumes "unit_interval (confidence x)" and "\<forall>y \<in> set ys. unit_interval (confidence y)"
  shows "insort_by by_confidence x ys = insort_key (\<lambda>i. - fin_val (confidence i)) x ys"
  using assms(2)
proof (induction ys)
  case Nil
  then show ?case by simp
next
  case (Cons y ys)
  obtain a where a: "confidence x = Fin a" using assms(1) by (cases "confidence x") auto
  obtain b where b: "confidence y = Fin b" using Cons.prems by (cases "confidence y") auto
  show ?case using Cons by (auto simp: by_confidence_def a b)
qed

lemma js_sort_by_confidence:
  "\<forall>x \<in> set xs. unit_interval (confidence x) \<Longrightarrow>
     js_sort by_confidence xs = sort_key (\<lambda>i. - fin_val (confidence i)) xs"
proof (induction xs)
  case Nil
  then show ?case by (simp add: js_sort_def)
next
  case (Cons x xs)
  then have ih: "js_sort by_confidence xs = sort_key (\<lambda>i. - fin_val (confidence i)) xs"
    by simp
  have "\<forall>y \<in> set (sort_key (\<lambda>i. - fin_val (confidence i)) xs). unit_interval (confidence y)"
    using Cons.prems by simp
  then have "insort_by by_confidence x (sort_key (\<lambda>i. - fin_val (confidence i)) xs)
     = insort_key (\<lambda>i. - fin_val (confidence i)) x (sort_key (\<lambda>i. - fin_val (confidence i)) xs)"
    using Cons.prems by (intro insort_by_confidence) simp_all
  then show ?case using ih by (simp add: js_sort_def)
qed

lemma js_ge_unit: "unit_interval a \<Longrightarrow> unit_interval b \<Longrightarrow> js_ge a b \<longleftrightarrow> fin_val b \<le> fin_val a"
  by (cases a; cases b) (auto simp: js_ge_def)

lemma sorted_desc_conv:
  assumes "\<forall>x \<in> set xs. unit_interval (confidence x)"
  shows "sorted_wrt (\<lambda>a b. js_ge (confidence a) (confidence b)) xs
     \<longleftrightarrow> sorted (map (\<lambda>i. - fin_val (confidence i)) xs)"
  using assms by (induction xs) (auto simp: js_ge_unit)

lemma js_sort_sorted:
  assumes "\<forall>x \<in> set xs. unit_interval (confidence x)"
  shows "sorted_wrt (\<lambda>a b. js_ge (confidence a) (confidence b)) (js_sort by_confidence xs)"
proof -
  have "\<forall>x \<in> set (js_sort by_confidence xs). unit_interval (confidence x)"
    using assms by (simp add: js_sort_by_confidence)
  then show ?thesis
    using assms by (simp add: sorted_desc_conv js_sort_by_confidence)
qed

lemma js_sort_fixed:
  assumes "\<forall>x \<in> set xs. unit_interval (confidence x)"
    and "sorted_wrt (\<lambda>a b. js_ge (confidence a) (confidence b)) xs"
  shows "js_sort by_confidence xs = xs"
  using assms by (simp add: js_sort_by_confidence sorted_desc_conv sort_key_id_if_sorted)

subsection \<open>The stages of the pipeline\<close>

lemma itemsRaw_ranked: "itemsRaw items = take 5 (ranked items)"
  by (simp add: itemsRaw_def ranked_def survivors_def)

lemma sanitize_sel:
  "label (sanitize it) = toLowerCase (trim (label it))"
  "canonical (sanitize it) = toLowerCase (trim (canonical it))"
  "confidence (sanitize it) = clamp_confidence (confidence it)"
  by (simp_all add: sanitize_def str_or_empty)

lemma canonicalize_sel:
  "label (canonicalize it) = label it"
  "confidence (canonicalize it) = confidence it"
  by (simp_all add: canonicalize_def Let_def)

lemma canonical_canonicalize:
  "canonical (canonicalize it) =
     (if rx_test orange_rx (label it) then ''orange''
      else if rx_test fries_rx (label it) then ''french fries''
      else if rx_test pasta_rx (label it) then ''pasta''
      else str_or (canonical it) (label it))"
  by (simp add: canonicalize_def Let_def)

lemma keep_iff: "keep it \<longleftrightarrow> label it \<noteq> [] \<and> label it \<notin> set banned"
  by (simp add: keep_def)

lemma survivors_elem:
  "x \<in> set (survivors items) \<longleftrightarrow> (\<exists>i \<in> set items. keep (sanitize i) \<and> x = canonicalize (sanitize i))"
  by (auto simp: survivors_def)

lemma survivors_unit: "x \<in> set (survivors items) \<Longrightarrow> unit_interval (confidence x)"
  by (auto simp: survivors_elem canonicalize_sel sanitize_sel unit_interval_clamp)

lemma survivors_keep: "x \<in> set (survivors items) \<Longrightarrow> keep x"
  by (auto simp: survivors_elem keep_iff canonicalize_sel)

lemma set_ranked: "set (ranked items) = set (survivors items)"
  by (simp add: ranked_def js_sort_by_confidence survivors_unit)

lemma mset_ranked: "mset (ranked items) = mset (survivors items)"
  by (simp add: ranked_def js_sort_by_confidence survivors_unit)

lemma length_ranked: "length (ranked items) = length (survivors items)"
  by (simp add: ranked_def js_sort_by_confidence survivors_unit)

lemma sorted_ranked: "sorted_wrt (\<lambda>a b. js_ge (confidence a) (confidence b)) (ranked items)"
  unfolding ranked_def by (rule js_sort_sorted) (simp add: survivors_unit)

lemma fixed_words:
  "toLowerCase (trim ''pasta'') = ''pasta''"
  "toLowerCase (trim ''french fries'') = ''french fries''"
  "toLowerCase (trim ''orange'') = ''orange''"
  by code_simp+

lemma str_or_sanitized:
  "toLowerCase (trim (str_or (toLowerCase (trim a)) (toLowerCase (trim b))))
     = str_or (toLowerCase (trim a)) (toLowerCase (trim b))"
  by (simp add: str_or_def sanitized_string_fixed)

lemma sanitize_survivor:
  assumes "x \<in> set (survivors items)"
  shows "sanitize x = x"
proof -
  from assms obtain i where x: "x = canonicalize (sanitize i)"
    by (auto simp: survivors_elem)
  have l: "toLowerCase (trim (label x)) = label x"
    by (simp add: x canonicalize_sel sanitize_sel sanitized_string_fixed)
  have k: "toLowerCase (trim (canonical x)) = canonical x"
    by (simp add: x canonical_canonicalize sanitize_sel fixed_words str_or_sanitized)
  have c: "clamp_confidence (confidence x) = confidence x"
    by (simp add: clamp_confidence_fixed survivors_unit [OF assms])
  show ?thesis
    by (rule item.equality) (simp_all add: sanitize_sel l k c)
qed

lemma str_or_str_or: "str_or (str_or a b) b = str_or a b"
  by (simp add: str_or_def)

lemma canonicalize_idem: "canonicalize (canonicalize it) = canonicalize it"
  by (rule item.equality) (simp_all add: canonicalize_sel canonical_canonicalize str_or_str_or)

lemma canonicalize_survivor: "x \<in> set (survivors items) \<Longrightarrow> canonicalize x = x"
  by (auto simp: survivors_elem canonicalize_idem)

lemma survivors_fixed:
  assumes "set xs \<subseteq> set (survivors items)"
  shows "survivors xs = xs"
proof -
  have 1: "map sanitize xs = xs"
    using assms by (intro map_idI) (auto simp: sanitize_survivor)
  have 2: "filter keep xs = xs"
    using assms by (auto simp: filter_id_conv survivors_keep)
  have 3: "map canonicalize xs = xs"
    using assms by (intro map_idI) (auto simp: canonicalize_survivor)
  show ?thesis by (simp add: survivors_def 1 2 3)
qed

lemma itemsRaw_fixed: "itemsRaw (itemsRaw items) = itemsRaw items"
proof -
  let ?L = "itemsRaw items"
  have sub: "set ?L \<subseteq> set (survivors items)"
    using set_take_subset [of 5 "ranked items"] by (simp add: itemsRaw_ranked set_ranked)
  have s: "survivors ?L = ?L" using sub by (rule survivors_fixed)
  have u: "\<forall>x \<in> set ?L. unit_interval (confidence x)"
    using sub survivors_unit by blast
  have "sorted_wrt (\<lambda>a b. js_ge (confidence a) (confidence b)) ?L"
    unfolding itemsRaw_ranked using sorted_ranked by (rule sorted_wrt_take)
  then have r: "ranked ?L = ?L"
    using u by (simp add: ranked_def s js_sort_fixed)
  have "length ?L \<le> 5" by (simp add: itemsRaw_ranked)
  then show ?thesis
    using r by (simp add: itemsRaw_ranked [of ?L])
qed

subsection \<open>The schema and the errors\<close>

lemma is_string_conv: "is_string v \<longleftrightarrow> z_string v \<noteq> None"
  by (cases v rule: is_string.cases) (simp_all add: z_string_def)

lemma is_number_conv: "is_number v \<longleftrightarrow> z_number v \<noteq> None"
  by (cases v rule: is_number.cases) (simp_all add: z_number_def)

lemma item_schema_None: "item_schema v = None \<longleftrightarrow> \<not> item_shape v"
  by (cases v)
    (auto simp: item_schema_def item_shape_def is_string_conv is_number_conv
      split: option.splits)

lemma z_array_None: "z_array f xs = None \<longleftrightarrow> (\<exists>x \<in> set xs. f x = None)"
  by (induction xs) (auto split: option.splits)

lemma ItemsSchema_parse_None: "ItemsSchema_parse v = None \<longleftrightarrow> \<not> items_shape v"
  by (cases v)
    (auto simp: ItemsSchema_parse_def items_shape_def z_array_None item_schema_None list_all_iff
      split: option.splits json.splits)

lemma normalize_value_SchemaError: "normalize_value v = Inl SchemaError \<longleftrightarrow> \<not> items_shape v"
  by (auto simp: normalize_value_def ItemsSchema_parse_None [symmetric] split: option.splits)

lemma normalize_value_Inr: "normalize_value v = Inr out \<Longrightarrow> \<exists>items. out = itemsRaw items"
  by (auto simp: normalize_value_def split: option.splits)

lemma normalize_Inr: "normalize_text parse rawText = Inr out \<Longrightarrow> \<exists>items. out = itemsRaw items"
  by (auto simp: normalize_text_def dest: normalize_value_Inr split: option.splits)

lemma set_banned:
  "set banned = {''snack'', ''food'', ''meal'', ''dish'', ''appetizer'', ''plate'', ''junk food''}"
  by (simp add: banned_def)

lemma itemsRaw_subset: "set (itemsRaw items) \<subseteq> set (survivors items)"
  using set_take_subset [of 5 "ranked items"] by (simp add: itemsRaw_ranked set_ranked)

lemma example_normalize_mixed: "normalize_text example_parse text_mixed = Inr out_mixed"
  by code_simp



lemma keep_sanitize:
  "keep (sanitize it) \<longleftrightarrow>
     toLowerCase (trim (label it)) \<notin>
       {[], ''snack'', ''food'', ''meal'', ''dish'', ''appetizer'', ''plate'', ''junk food''}"
  by (simp add: keep_iff sanitize_sel set_banned)

lemma filter_confidence_conv:
  assumes "\<forall>x \<in> set ys. unit_interval (confidence x)"
  shows "filter (\<lambda>x. confidence x = c) ys =
     (if unit_interval c then filter (\<lambda>x. - fin_val (confidence x) = - fin_val c) ys else [])"
proof (cases "unit_interval c")
  case True
  have "confidence x = c \<longleftrightarrow> - fin_val (confidence x) = - fin_val c" if "x \<in> set ys" for x
    using that assms True unit_interval_Fin [of c] unit_interval_Fin [of "confidence x"]
    by (metis neg_equal_iff_equal)
  then show ?thesis using True by (simp cong: filter_cong)
next
  case False
  then have "\<forall>x \<in> set ys. confidence x \<noteq> c" using assms by blast
  then show ?thesis using False by (simp add: filter_empty_conv)
qed

lemma example_ties:
  "\<forall>x \<in> set items_ties. unit_interval (confidence x)"
  "js_sort by_confidence items_ties = ranked_ties"
  "itemsRaw items_ties = take 5 ranked_ties"
  by code_simp+

lemma take_mid: "length pre < n \<Longrightarrow> x \<in> set (take n (pre @ x # post))"
  by (simp add: take_Cons')

lemma item_schema_json_of_item:
  assumes "unit_interval (confidence it)"
  shows "item_schema (json_of_item it) = Some it"
proof -
  obtain r where r: "confidence it = Fin r"
    using assms by (cases "confidence it") auto
  show ?thesis
    by (cases it)
      (use r in \<open>simp add: item_schema_def json_of_item_def json_of_number_def z_string_def z_number_def\<close>)
qed

lemma z_array_json_of_item:
  "\<forall>x \<in> set L. unit_interval (confidence x) \<Longrightarrow>
     z_array item_schema (map json_of_item L) = Some L"
  by (induction L) (simp_all add: item_schema_json_of_item)

lemma normalize_value_rewrap:
  "\<forall>x \<in> set L. unit_interval (confidence x) \<Longrightarrow> normalize_value (rewrap L) = Inr (itemsRaw L)"
  by (simp add: normalize_value_def ItemsSchema_parse_def rewrap_def z_array_json_of_item)

lemma example_rewrap: "rewrap out_mixed = value_out_mixed"
  by code_simp

text \<open>The guard of line 138 in front of the decoding.\<close>

lemma respond_nonempty: "textOut \<noteq> [] \<Longrightarrow> respond parse textOut = normalize_text parse textOut"
  by (simp add: respond_def)

lemma respond_empty: "respond parse [] = Inl NoOutputText"
  by (simp add: respond_def)

text \<open>Lines 142-175 alone, behind the guard.\<close>

lemma normalize_text_results:
  "(parse rawText = None \<longrightarrow>
      normalize_text parse rawText = Inl (ParseError (take 400 rawText)))
   \<and> ((\<exists>out. normalize_text parse rawText = Inr out) \<longleftrightarrow>
        (\<exists>data parsed. parse rawText = Some data \<and> ItemsSchema_parse data = Some parsed))"
  by (auto simp: normalize_text_def normalize_value_def split: option.splits)

lemma example_texts_nonempty:
  "text_malformed \<noteq> []" "text_snack \<noteq> []" "text_empty \<noteq> []" "text_mixed \<noteq> []"
  by (simp_all add: text_malformed_def text_snack_def text_empty_def text_mixed_def)

lemma example_parsed:
  "ItemsSchema_parse value_mixed = Some items_mixed"
  "ItemsSchema_parse value_snack =
     Some [\<lparr>label = ''SNACK'', canonical = ''snack'', confidence = Fin (9/10)\<rparr>]"
  "ItemsSchema_parse value_empty = Some []"
  by code_simp+

lemma survivors_conv:
  "survivors items =
     map canonicalize (map sanitize (filter (\<lambda>it. toLowerCase (trim (label it)) \<notin>
       {[], ''snack'', ''food'', ''meal'', ''dish'', ''appetizer'', ''plate'', ''junk food''}) items))"
  unfolding survivors_def by (simp only: filter_map comp_def keep_sanitize)

section \<open>The properties\<close>

text \<open>
  C1. Whenever \<open>normalize_text\<close> succeeds, the list it returns has at most 5 items, every
  confidence lies between 0 and 1, no label is one of snack, food, meal, dish,
  appetizer, plate, junk food, and the confidences never increase along the list.
\<close>

theorem normalize_output_invariant:
  assumes "normalize_text parse rawText = Inr out"
  shows "length out \<le> 5
    \<and> (\<forall>it \<in> set out. unit_interval (confidence it))
    \<and> (\<forall>it \<in> set out. label it \<notin>
          {''snack'', ''food'', ''meal'', ''dish'', ''appetizer'', ''plate'', ''junk food''})
    \<and> sorted_wrt (\<lambda>a b. js_ge (confidence a) (confidence b)) out"
proof -
  from assms obtain items where out: "out = itemsRaw items"
    by (blast dest: normalize_Inr)
  have len: "length out \<le> 5" by (simp add: out itemsRaw_ranked)
  have conf: "\<forall>it \<in> set out. unit_interval (confidence it)"
    using itemsRaw_subset [of items] survivors_unit unfolding out by blast
  have "\<forall>it \<in> set out. label it \<notin> set banned"
    using itemsRaw_subset [of items] survivors_keep unfolding out keep_iff by blast
  then have ban: "\<forall>it \<in> set out. label it \<notin>
      {''snack'', ''food'', ''meal'', ''dish'', ''appetizer'', ''plate'', ''junk food''}"
    unfolding set_banned .
  have srt: "sorted_wrt (\<lambda>a b. js_ge (confidence a) (confidence b)) out"
    unfolding out itemsRaw_ranked using sorted_ranked by (rule sorted_wrt_take)
  from len conf ban srt show ?thesis by blast
qed

theorem normalize_output_invariant_witness:
  "normalize_text example_parse text_mixed = Inr out_mixed
   \<and> length out_mixed \<le> 5
   \<and> list_all (\<lambda>it. unit_interval (confidence it)) out_mixed
   \<and> list_all (\<lambda>it. label it \<notin>
          {''snack'', ''food'', ''meal'', ''dish'', ''appetizer'', ''plate'', ''junk food''})
        out_mixed
   \<and> sorted_wrt (\<lambda>a b. js_ge (confidence a) (confidence b)) out_mixed"
  using example_normalize_mixed normalize_output_invariant [OF example_normalize_mixed]
  unfolding list_all_iff by blast

text \<open>
  C5, as the claim states it, fails at the empty text: it is not valid JSON, and line 138
  answers it with no-output-text before anything is decoded, not with ParseError.
\<close>

theorem empty_text_no_output:
  "example_parse [] = None
   \<and> respond example_parse [] = Inl NoOutputText
   \<and> respond example_parse [] \<noteq> Inl (ParseError (take 400 []))"
  by code_simp

text \<open>
  C5, amended. When the upstream text is not empty and is not valid JSON, the handler
  returns ParseError with the first 400 code units of the text, at most, and nothing
  else; the empty text is answered with no-output-text. A list is returned exactly when
  the text is not empty and both the decoding and the schema validation succeed. The
  model is a total function: every text gets one of the four results, never a partial
  list.
\<close>

theorem respond_parse_error:
  "(textOut \<noteq> [] \<and> parse textOut = None \<longrightarrow>
      respond parse textOut = Inl (ParseError (take 400 textOut))
      \<and> length (take 400 textOut) \<le> 400
      \<and> prefix (take 400 textOut) textOut)
   \<and> respond parse [] = Inl NoOutputText
   \<and> ((\<exists>out. respond parse textOut = Inr out) \<longleftrightarrow>
        (textOut \<noteq> [] \<and>
         (\<exists>data parsed. parse textOut = Some data \<and> ItemsSchema_parse data = Some parsed)))
   \<and> (respond parse textOut = Inl NoOutputText
        \<or> respond parse textOut = Inl (ParseError (take 400 textOut))
        \<or> respond parse textOut = Inl SchemaError
        \<or> (\<exists>items. respond parse textOut = Inr (itemsRaw items)))"
  by (auto simp: respond_def normalize_text_def normalize_value_def take_is_prefix
      split: option.splits)

theorem respond_parse_error_witness:
  "text_malformed \<noteq> []
   \<and> example_parse text_malformed = None
   \<and> respond example_parse text_malformed = Inl (ParseError ''{not json'')
   \<and> length (take 400 text_malformed) \<le> 400
   \<and> respond example_parse [] = Inl NoOutputText"
proof -
  have h: "example_parse text_malformed = None" by code_simp
  have t: "take 400 text_malformed = ''{not json''" by code_simp
  show ?thesis
    using h t example_texts_nonempty(1) respond_parse_error [of text_malformed example_parse]
    by simp
qed

text \<open>
  C3, as the claim states it, fails: a decoded value with a top-level key besides
  \<open>items\<close> is accepted, the key being dropped.
\<close>

theorem extra_key_accepted:
  "map_of [(''items'', JArr []), (''extra'', JNum (Fin 1))] ''extra'' = Some (JNum (Fin 1))
   \<and> normalize_value (JObj [(''items'', JArr []), (''extra'', JNum (Fin 1))]) = Inr []
   \<and> normalize_value (JObj [(''items'', JArr []), (''extra'', JNum (Fin 1))]) \<noteq> Inl SchemaError"
  by code_simp

text \<open>
  C3, amended. For a text that decodes to \<open>data\<close>, \<open>normalize_text\<close> returns SchemaError
  whenever \<open>data\<close> is not an object whose \<open>items\<close> is an array of objects, each
  with a string \<open>label\<close>, a number \<open>confidence\<close> and a string \<open>canonical\<close>. Keys
  besides these are ignored: the result is that of any object with the same \<open>items\<close>.
  SchemaError carries nothing of the payload. The value of \<open>{"items":[{"foo":1}]}\<close>
  yields SchemaError.
\<close>

theorem normalize_schema_error:
  assumes "parse rawText = Some data"
  shows "(\<not> items_shape data \<longrightarrow> normalize_text parse rawText = Inl SchemaError)
    \<and> (\<forall>kvs kvs'. data = JObj kvs \<and> map_of kvs' ''items'' = map_of kvs ''items''
          \<longrightarrow> normalize_value (JObj kvs') = normalize_text parse rawText)
    \<and> (data = JObj [(''items'', JArr [JObj [(''foo'', JNum (Fin 1))]])]
          \<longrightarrow> normalize_text parse rawText = Inl SchemaError)"
proof -
  have n: "normalize_text parse rawText = normalize_value data"
    using assms by (simp add: normalize_text_def)
  have a: "\<not> items_shape data \<longrightarrow> normalize_text parse rawText = Inl SchemaError"
    unfolding n by (simp add: normalize_value_SchemaError)
  have b: "\<forall>kvs kvs'. data = JObj kvs \<and> map_of kvs' ''items'' = map_of kvs ''items''
          \<longrightarrow> normalize_value (JObj kvs') = normalize_text parse rawText"
    unfolding n by (simp add: normalize_value_def ItemsSchema_parse_def)
  have "\<not> items_shape (JObj [(''items'', JArr [JObj [(''foo'', JNum (Fin 1))]])])"
    by (simp add: items_shape_def item_shape_def)
  then have c: "data = JObj [(''items'', JArr [JObj [(''foo'', JNum (Fin 1))]])]
          \<longrightarrow> normalize_text parse rawText = Inl SchemaError"
    using a by blast
  from a b c show ?thesis by blast
qed

theorem normalize_schema_error_witness:
  "example_parse text_foo = Some (JObj [(''items'', JArr [JObj [(''foo'', JNum (Fin 1))]])])
   \<and> \<not> items_shape (JObj [(''items'', JArr [JObj [(''foo'', JNum (Fin 1))]])])
   \<and> normalize_text example_parse text_foo = Inl SchemaError
   \<and> example_parse text_empty = Some (JObj [(''items'', JArr [])])
   \<and> normalize_value (JObj [(''items'', JArr []), (''extra'', JNum (Fin 1))])
        = normalize_text example_parse text_empty"
proof -
  have h: "example_parse text_foo = Some (JObj [(''items'', JArr [JObj [(''foo'', JNum (Fin 1))]])])"
    by code_simp
  have e: "example_parse text_empty = Some (JObj [(''items'', JArr [])])"
    by code_simp
  have s: "\<not> items_shape (JObj [(''items'', JArr [JObj [(''foo'', JNum (Fin 1))]])])"
    by code_simp
  have m: "map_of [(''items'', JArr []), (''extra'', JNum (Fin 1))] ''items''
      = map_of [(''items'', JArr [])] ''items''"
    by simp
  have 1: "normalize_text example_parse text_foo = Inl SchemaError"
    using s normalize_schema_error [of example_parse text_foo, OF h] by blast
  have 2: "normalize_value (JObj [(''items'', JArr []), (''extra'', JNum (Fin 1))])
        = normalize_text example_parse text_empty"
    using m normalize_schema_error [of example_parse text_empty, OF e] by blast
  from h s 1 e 2 show ?thesis by blast
qed

text \<open>
  C4, as the claim states it, fails at positive infinity: the code keeps it through
  \<open>|| 0\<close> and clamps it to 1, where defaulting to 0 gives 0.
\<close>

theorem infinity_clamped_to_one:
  "confidence (sanitize \<lparr>label = ''apple'', canonical = ''apple'', confidence = PInf\<rparr>) = Fin 1
   \<and> spec_confidence PInf = Fin 0
   \<and> confidence (sanitize \<lparr>label = ''apple'', canonical = ''apple'', confidence = PInf\<rparr>)
       \<noteq> spec_confidence PInf"
  by code_simp

text \<open>
  C4, amended. The confidence of a sanitized item is 0 when the input is NaN or below 0
  (negative infinity included), 1 when it is above 1 (positive infinity included), and
  the input itself otherwise; so it lies between 0 and 1, and so does every confidence
  of the output. The schema lets only numbers reach this step.
\<close>

theorem sanitize_confidence:
  "confidence (sanitize it) =
     (case confidence it of
        Fin r \<Rightarrow> Fin (max 0 (min 1 r))
      | PInf \<Rightarrow> Fin 1
      | NInf \<Rightarrow> Fin 0
      | NaN \<Rightarrow> Fin 0)
   \<and> unit_interval (confidence (sanitize it))
   \<and> (\<forall>x \<in> set (itemsRaw items). unit_interval (confidence x))"
proof -
  have "\<forall>x \<in> set (itemsRaw items). unit_interval (confidence x)"
    using itemsRaw_subset [of items] survivors_unit by blast
  then show ?thesis
    by (simp add: sanitize_sel unit_interval_clamp clamp_confidence_cases split: jsnum.splits)
qed

theorem sanitize_confidence_witness:
  "confidence (sanitize \<lparr>label = ''Penne'', canonical = ''penne'', confidence = Fin (3/2)\<rparr>) = Fin 1
   \<and> list_all (\<lambda>x. unit_interval (confidence x))
         (itemsRaw [\<lparr>label = ''Penne'', canonical = ''penne'', confidence = Fin (3/2)\<rparr>])"
  using sanitize_confidence
    [of "\<lparr>label = ''Penne'', canonical = ''penne'', confidence = Fin (3/2)\<rparr>"
        "[\<lparr>label = ''Penne'', canonical = ''penne'', confidence = Fin (3/2)\<rparr>]"]
  by (simp add: list_all_iff)



text \<open>
  C10. The rules match anywhere in the label: the pasta rule fires exactly when one of
  its words is a substring of the label, the fries rule when fries is, the orange rule
  when one of orange, mandarin, tangerine is. The canonical value is orange if the
  orange rule fires, whatever else does; otherwise french fries if the fries rule
  fires; otherwise pasta if the pasta rule fires; otherwise the canonical value or the
  label.
\<close>

theorem rules_match_substrings:
  "(rx_test pasta_rx l \<longleftrightarrow> (\<exists>w \<in> set pasta_words. sublist w l))
   \<and> (rx_test fries_rx l \<longleftrightarrow> sublist ''fries'' l)
   \<and> (rx_test orange_rx l \<longleftrightarrow> (\<exists>w \<in> set orange_words. sublist w l))
   \<and> (label it = l \<longrightarrow>
        canonical (canonicalize it) =
          (if \<exists>w \<in> set orange_words. sublist w l then ''orange''
           else if sublist ''fries'' l then ''french fries''
           else if \<exists>w \<in> set pasta_words. sublist w l then ''pasta''
           else str_or (canonical it) l))"
  by (simp add: canonical_canonicalize rx_test_pasta rx_test_fries rx_test_orange)

theorem rules_match_substrings_witness:
  "sublist ''noodle'' ''egg noodles with fries''
   \<and> sublist ''fries'' ''egg noodles with fries''
   \<and> canonical (canonicalize \<lparr>label = ''egg noodles with fries'', canonical = ''x'', confidence = Fin 1\<rparr>)
        = ''french fries''
   \<and> sublist ''orange'' ''pasta and fries in orange sauce''
   \<and> canonical (canonicalize \<lparr>label = ''pasta and fries in orange sauce'', canonical = ''x'', confidence = Fin 1\<rparr>)
        = ''orange''"
proof -
  let ?a = "\<lparr>label = ''egg noodles with fries'', canonical = ''x'', confidence = Fin 1\<rparr>"
  let ?b = "\<lparr>label = ''pasta and fries in orange sauce'', canonical = ''x'', confidence = Fin 1\<rparr>"
  have a: "rx_test fries_rx ''egg noodles with fries''"
    "\<not> rx_test orange_rx ''egg noodles with fries''"
    "rx_test orange_rx ''pasta and fries in orange sauce''"
    by code_simp+
  have s: "sublist ''noodle'' ''egg noodles with fries''"
    "sublist ''orange'' ''pasta and fries in orange sauce''"
    by code_simp+
  have la: "label ?a = ''egg noodles with fries''" and lb: "label ?b = ''pasta and fries in orange sauce''"
    by simp_all
  note ta = rules_match_substrings [of "''egg noodles with fries''" ?a]
  note tb = rules_match_substrings [of "''pasta and fries in orange sauce''" ?b]
  have fa: "sublist ''fries'' ''egg noodles with fries''"
    using a(1) ta by blast
  have oa: "\<not> (\<exists>w \<in> set orange_words. sublist w ''egg noodles with fries'')"
    using a(2) ta by blast
  have ob: "\<exists>w \<in> set orange_words. sublist w ''pasta and fries in orange sauce''"
    using a(3) tb by blast
  have ca: "canonical (canonicalize ?a) = ''french fries''"
    using ta la fa oa by (simp only: if_True if_False simp_thms)
  have cb: "canonical (canonicalize ?b) = ''orange''"
    using tb lb ob by (simp only: if_True if_False simp_thms)
  from s fa ca cb show ?thesis by blast
qed

text \<open>
  C7. The filter step keeps exactly the items whose label, trimmed and lower-cased, is
  neither empty nor one of snack, food, meal, dish, appetizer, plate, junk food, and
  drops the others; the comparison being made after lower-casing, the ban does not
  depend on case. So the output of \<open>itemsRaw\<close>, which the handler returns for every
  text that is not empty and passes decoding and schema, is the first 5 of the ranking
  of exactly these items, sanitized and canonicalized, and all of them when they are at
  most 5. The text \<open>{"items":[{"label":"SNACK","confidence":0.9,"canonical":"snack"}]}\<close>
  and the text \<open>{"items":[]}\<close>, decoded to their values, both succeed with the
  empty list.
\<close>

theorem filter_step:
  "filter keep (map sanitize items) =
     map sanitize (filter (\<lambda>it. toLowerCase (trim (label it)) \<notin>
       {[], ''snack'', ''food'', ''meal'', ''dish'', ''appetizer'', ''plate'', ''junk food''}) items)
   \<and> itemsRaw items =
       take 5 (js_sort by_confidence (map canonicalize (map sanitize
         (filter (\<lambda>it. toLowerCase (trim (label it)) \<notin>
           {[], ''snack'', ''food'', ''meal'', ''dish'', ''appetizer'', ''plate'', ''junk food''})
           items))))
   \<and> (length (filter (\<lambda>it. toLowerCase (trim (label it)) \<notin>
           {[], ''snack'', ''food'', ''meal'', ''dish'', ''appetizer'', ''plate'', ''junk food''})
           items) \<le> 5 \<longrightarrow>
        mset (itemsRaw items) =
          mset (map (\<lambda>it. canonicalize (sanitize it))
            (filter (\<lambda>it. toLowerCase (trim (label it)) \<notin>
              {[], ''snack'', ''food'', ''meal'', ''dish'', ''appetizer'', ''plate'', ''junk food''})
              items)))
   \<and> (textOut \<noteq> [] \<and> parse textOut = Some data \<and> ItemsSchema_parse data = Some items \<longrightarrow>
        respond parse textOut = Inr (itemsRaw items)
        \<and> normalize_text parse textOut = Inr (itemsRaw items))
   \<and> (parse text_snack = Some value_snack \<longrightarrow>
        respond parse text_snack = Inr [] \<and> normalize_text parse text_snack = Inr [])
   \<and> (parse text_empty = Some value_empty \<longrightarrow>
        respond parse text_empty = Inr [] \<and> normalize_text parse text_empty = Inr [])"
proof -
  let ?good = "\<lambda>it. toLowerCase (trim (label it)) \<notin>
       {[], ''snack'', ''food'', ''meal'', ''dish'', ''appetizer'', ''plate'', ''junk food''}"
  have 1: "filter keep (map sanitize items) = map sanitize (filter ?good items)"
    by (simp only: filter_map comp_def keep_sanitize)
  have 2: "itemsRaw items =
      take 5 (js_sort by_confidence (map canonicalize (map sanitize (filter ?good items))))"
    unfolding itemsRaw_ranked ranked_def survivors_conv ..
  have 3: "length (filter ?good items) \<le> 5 \<longrightarrow>
      mset (itemsRaw items) = mset (map (\<lambda>it. canonicalize (sanitize it)) (filter ?good items))"
  proof
    assume le: "length (filter ?good items) \<le> 5"
    have "length (ranked items) = length (filter ?good items)"
      unfolding length_ranked survivors_conv by simp
    then have "itemsRaw items = ranked items"
      using le by (simp add: itemsRaw_ranked)
    then show "mset (itemsRaw items) = mset (map (\<lambda>it. canonicalize (sanitize it)) (filter ?good items))"
      by (simp add: mset_ranked survivors_conv comp_def)
  qed
  have 4: "textOut \<noteq> [] \<and> parse textOut = Some data \<and> ItemsSchema_parse data = Some items \<longrightarrow>
        respond parse textOut = Inr (itemsRaw items)
        \<and> normalize_text parse textOut = Inr (itemsRaw items)"
    by (simp add: respond_def normalize_text_def normalize_value_def)
  have s: "normalize_value value_snack = Inr []" by code_simp
  have e: "normalize_value value_empty = Inr []" by code_simp
  have 5: "parse text_snack = Some value_snack \<longrightarrow>
        respond parse text_snack = Inr [] \<and> normalize_text parse text_snack = Inr []"
    by (simp add: respond_def normalize_text_def s example_texts_nonempty)
  have 6: "parse text_empty = Some value_empty \<longrightarrow>
        respond parse text_empty = Inr [] \<and> normalize_text parse text_empty = Inr []"
    by (simp add: respond_def normalize_text_def e example_texts_nonempty)
  show ?thesis by (intro conjI 1 2 3 4 5 6)
qed

theorem filter_step_witness:
  "example_parse text_snack = Some value_snack
   \<and> respond example_parse text_snack = Inr []
   \<and> example_parse text_empty = Some value_empty
   \<and> respond example_parse text_empty = Inr []
   \<and> text_mixed \<noteq> []
   \<and> example_parse text_mixed = Some value_mixed
   \<and> ItemsSchema_parse value_mixed = Some items_mixed
   \<and> filter (\<lambda>it. toLowerCase (trim (label it)) \<notin>
          {[], ''snack'', ''food'', ''meal'', ''dish'', ''appetizer'', ''plate'', ''junk food''})
        items_mixed =
        [\<lparr>label = '' Apple'', canonical = [], confidence = Fin (2/5)\<rparr>,
         \<lparr>label = ''Penne'', canonical = ''penne'', confidence = Fin (3/2)\<rparr>,
         \<lparr>label = ''Rice'', canonical = ''rice'', confidence = Fin 0\<rparr>]
   \<and> itemsRaw items_mixed = out_mixed
   \<and> respond example_parse text_mixed = Inr out_mixed
   \<and> mset out_mixed =
        mset (map (\<lambda>it. canonicalize (sanitize it))
          [\<lparr>label = '' Apple'', canonical = [], confidence = Fin (2/5)\<rparr>,
           \<lparr>label = ''Penne'', canonical = ''penne'', confidence = Fin (3/2)\<rparr>,
           \<lparr>label = ''Rice'', canonical = ''rice'', confidence = Fin 0\<rparr>])"
proof -
  let ?good = "\<lambda>it. toLowerCase (trim (label it)) \<notin>
       {[], ''snack'', ''food'', ''meal'', ''dish'', ''appetizer'', ''plate'', ''junk food''}"
  have h: "example_parse text_snack = Some value_snack" "example_parse text_empty = Some value_empty"
    "example_parse text_mixed = Some value_mixed"
    by code_simp+
  have f: "filter ?good items_mixed =
        [\<lparr>label = '' Apple'', canonical = [], confidence = Fin (2/5)\<rparr>,
         \<lparr>label = ''Penne'', canonical = ''penne'', confidence = Fin (3/2)\<rparr>,
         \<lparr>label = ''Rice'', canonical = ''rice'', confidence = Fin 0\<rparr>]"
    by code_simp
  have r: "itemsRaw items_mixed = out_mixed" by code_simp
  note t = filter_step [of items_mixed text_mixed example_parse value_mixed]
  have a: "respond example_parse text_snack = Inr []"
    and b: "respond example_parse text_empty = Inr []"
    using h t by blast+
  have c: "respond example_parse text_mixed = Inr out_mixed"
    using h(3) example_parsed(1) example_texts_nonempty(4) t unfolding r by blast
  have l: "length (filter ?good items_mixed) \<le> 5" unfolding f by simp
  have m: "mset (itemsRaw items_mixed) = mset (map (\<lambda>it. canonicalize (sanitize it)) (filter ?good items_mixed))"
    using l t by blast
  show ?thesis
    using h a b c r example_parsed(1) example_texts_nonempty(4) f m [unfolded r f] by blast
qed

text \<open>
  C6. On a list of sanitized items (confidences between 0 and 1) the sort returns a
  permutation of the list in which the confidences never increase and in which the
  items of any one confidence stand in the order they had; then at most the first 5
  are kept. \<open>itemsRaw\<close> ends with these two steps, applied to the survivors of the
  filter, which are such a list.
\<close>

theorem rank_and_truncate:
  assumes "\<forall>x \<in> set xs. unit_interval (confidence x)"
  shows "sorted_wrt (\<lambda>a b. js_ge (confidence a) (confidence b)) (js_sort by_confidence xs)
    \<and> mset (js_sort by_confidence xs) = mset xs
    \<and> (\<forall>c. filter (\<lambda>x. confidence x = c) (js_sort by_confidence xs)
           = filter (\<lambda>x. confidence x = c) xs)
    \<and> length (take 5 (js_sort by_confidence xs)) = min 5 (length xs)
    \<and> itemsRaw items = take 5 (js_sort by_confidence (survivors items))
    \<and> (\<forall>x \<in> set (survivors items). unit_interval (confidence x))"
proof -
  let ?f = "\<lambda>i. - fin_val (confidence i)"
  have eq: "js_sort by_confidence xs = sort_key ?f xs"
    using assms by (rule js_sort_by_confidence)
  have 1: "sorted_wrt (\<lambda>a b. js_ge (confidence a) (confidence b)) (js_sort by_confidence xs)"
    using assms by (rule js_sort_sorted)
  have 2: "mset (js_sort by_confidence xs) = mset xs"
    by (simp add: eq)
  have u: "\<forall>x \<in> set (sort_key ?f xs). unit_interval (confidence x)"
    using assms by simp
  have 3: "\<forall>c. filter (\<lambda>x. confidence x = c) (js_sort by_confidence xs)
           = filter (\<lambda>x. confidence x = c) xs"
  proof
    fix c
    have "filter (\<lambda>x. fin_val (confidence x) = fin_val c) (sort_key ?f xs)
        = filter (\<lambda>x. fin_val (confidence x) = fin_val c) xs"
      using sort_key_stable [of ?f "- fin_val c" xs] by simp
    then show "filter (\<lambda>x. confidence x = c) (js_sort by_confidence xs)
        = filter (\<lambda>x. confidence x = c) xs"
      unfolding eq filter_confidence_conv [OF u] filter_confidence_conv [OF assms]
      by simp
  qed
  have 4: "length (take 5 (js_sort by_confidence xs)) = min 5 (length xs)"
    by (simp add: eq min.commute)
  have 5: "itemsRaw items = take 5 (js_sort by_confidence (survivors items))"
    by (simp add: itemsRaw_def survivors_def)
  have 6: "\<forall>x \<in> set (survivors items). unit_interval (confidence x)"
    by (simp add: survivors_unit)
  show ?thesis by (intro conjI 1 2 3 4 5 6)
qed

theorem rank_and_truncate_witness:
  "list_all (\<lambda>x. unit_interval (confidence x)) items_ties
   \<and> js_sort by_confidence items_ties = ranked_ties
   \<and> sorted_wrt (\<lambda>a b. js_ge (confidence a) (confidence b)) ranked_ties
   \<and> mset ranked_ties = mset items_ties
   \<and> filter (\<lambda>x. confidence x = Fin (2/5)) ranked_ties
        = filter (\<lambda>x. confidence x = Fin (2/5)) items_ties
   \<and> length (take 5 ranked_ties) = 5"
proof -
  have l: "length items_ties = 7" by (simp add: items_ties_def)
  show ?thesis
    using example_ties(1,2) l rank_and_truncate [OF example_ties(1), of items_ties]
    by (simp add: list_all_iff)
qed

text \<open>
  C9. An item of the parsed list whose sanitized label is not empty and not banned, and
  whose confidence sanitizes to 0, is not dropped: it stands in the ranking, every item
  behind it has confidence 0 as well, and it is in the output whenever fewer than 5
  items stand in front of it.
\<close>

theorem zero_confidence_kept:
  assumes "i \<in> set items"
    and "toLowerCase (trim (label i)) \<notin>
       {[], ''snack'', ''food'', ''meal'', ''dish'', ''appetizer'', ''plate'', ''junk food''}"
    and "clamp_confidence (confidence i) = Fin 0"
  shows "\<exists>pre post. ranked items = pre @ canonicalize (sanitize i) # post
    \<and> (\<forall>y \<in> set post. confidence y = Fin 0)
    \<and> itemsRaw items = take 5 (ranked items)
    \<and> (length pre < 5 \<longrightarrow> canonicalize (sanitize i) \<in> set (itemsRaw items))"
proof -
  let ?x = "canonicalize (sanitize i)"
  have k: "keep (sanitize i)" using assms(2) unfolding keep_sanitize .
  have "?x \<in> set (survivors items)"
    using assms(1) k by (auto simp: survivors_elem)
  then have "?x \<in> set (ranked items)" by (simp add: set_ranked)
  then obtain pre post where sp: "ranked items = pre @ ?x # post"
    by (auto simp: in_set_conv_decomp)
  have cx: "confidence ?x = Fin 0"
    using assms(3) by (simp add: canonicalize_sel sanitize_sel)
  have "\<forall>y \<in> set post. confidence y = Fin 0"
  proof
    fix y assume y: "y \<in> set post"
    have "sorted_wrt (\<lambda>a b. js_ge (confidence a) (confidence b)) (pre @ ?x # post)"
      using sorted_ranked [of items] unfolding sp .
    then have ge: "js_ge (confidence ?x) (confidence y)"
      using y by (auto simp: sorted_wrt_append)
    have "y \<in> set (survivors items)"
      using y sp set_ranked [of items] by auto
    then have "unit_interval (confidence y)" by (rule survivors_unit)
    then show "confidence y = Fin 0"
      using ge unfolding cx by (cases "confidence y") (auto simp: js_ge_def)
  qed
  moreover have "length pre < 5 \<longrightarrow> ?x \<in> set (itemsRaw items)"
    using take_mid [of pre 5 ?x post] unfolding itemsRaw_ranked sp by blast
  ultimately show ?thesis
    using sp itemsRaw_ranked by blast
qed

theorem zero_confidence_kept_witness:
  "\<lparr>label = ''Rice'', canonical = ''rice'', confidence = Fin 0\<rparr> \<in> set items_zero
   \<and> toLowerCase (trim (label \<lparr>label = ''Rice'', canonical = ''rice'', confidence = Fin 0\<rparr>)) \<notin>
        {[], ''snack'', ''food'', ''meal'', ''dish'', ''appetizer'', ''plate'', ''junk food''}
   \<and> clamp_confidence (confidence \<lparr>label = ''Rice'', canonical = ''rice'', confidence = Fin 0\<rparr>) = Fin 0
   \<and> (\<exists>pre post. ranked items_zero = pre @ \<lparr>label = ''rice'', canonical = ''rice'', confidence = Fin 0\<rparr> # post)
   \<and> ranked items_zero =
        [\<lparr>label = ''penne'', canonical = ''pasta'', confidence = Fin 1\<rparr>,
         \<lparr>label = ''rice'', canonical = ''rice'', confidence = Fin 0\<rparr>,
         \<lparr>label = ''tea'', canonical = ''tea'', confidence = Fin 0\<rparr>]
   \<and> \<lparr>label = ''rice'', canonical = ''rice'', confidence = Fin 0\<rparr> \<in> set (itemsRaw items_zero)"
proof -
  let ?i = "\<lparr>label = ''Rice'', canonical = ''rice'', confidence = Fin 0\<rparr>"
  have 1: "?i \<in> set items_zero" by (simp add: items_zero_def)
  have 2: "toLowerCase (trim (label ?i)) \<notin>
       {[], ''snack'', ''food'', ''meal'', ''dish'', ''appetizer'', ''plate'', ''junk food''}"
    by code_simp
  have 3: "clamp_confidence (confidence ?i) = Fin 0" by code_simp
  have c: "canonicalize (sanitize ?i) = \<lparr>label = ''rice'', canonical = ''rice'', confidence = Fin 0\<rparr>"
    by code_simp
  have r: "ranked items_zero =
        [\<lparr>label = ''penne'', canonical = ''pasta'', confidence = Fin 1\<rparr>,
         \<lparr>label = ''rice'', canonical = ''rice'', confidence = Fin 0\<rparr>,
         \<lparr>label = ''tea'', canonical = ''tea'', confidence = Fin 0\<rparr>]"
    by code_simp
  have m: "\<lparr>label = ''rice'', canonical = ''rice'', confidence = Fin 0\<rparr> \<in> set (itemsRaw items_zero)"
    by code_simp
  have e: "\<exists>pre post. ranked items_zero = pre @ \<lparr>label = ''rice'', canonical = ''rice'', confidence = Fin 0\<rparr> # post"
    using zero_confidence_kept [OF 1 2 3] unfolding c by blast
  from 1 2 3 e r m show ?thesis by blast
qed

text \<open>
  C8. Normalization is idempotent: when \<open>normalize_text\<close> succeeds with the list
  \<open>L\<close>, a text that decodes to \<open>{items: L}\<close> serialized and decoded again
  (\<open>rewrap L\<close>) is normalized to the same list \<open>L\<close>.
\<close>

theorem normalize_idempotent:
  assumes "normalize_text parse rawText = Inr L"
    and "parse' rawText' = Some (rewrap L)"
  shows "normalize_text parse' rawText' = Inr L"
proof -
  from assms(1) obtain items where L: "L = itemsRaw items"
    by (blast dest: normalize_Inr)
  have "\<forall>x \<in> set L. unit_interval (confidence x)"
    using itemsRaw_subset [of items] survivors_unit unfolding L by blast
  then have "normalize_value (rewrap L) = Inr (itemsRaw L)"
    by (rule normalize_value_rewrap)
  then have "normalize_value (rewrap L) = Inr L"
    by (simp add: L itemsRaw_fixed)
  then show ?thesis
    using assms(2) by (simp add: normalize_text_def)
qed

theorem normalize_idempotent_witness:
  "normalize_text example_parse text_mixed = Inr out_mixed
   \<and> example_parse text_out_mixed = Some (rewrap out_mixed)
   \<and> normalize_text example_parse text_out_mixed = Inr out_mixed"
proof -
  have h: "example_parse text_out_mixed = Some (rewrap out_mixed)"
    unfolding example_rewrap by code_simp
  show ?thesis
    using example_normalize_mixed h normalize_idempotent [of example_parse text_mixed out_mixed example_parse text_out_mixed,
        OF example_normalize_mixed h]
    by blast
qed

end
